theory Spec2Isabelle
  imports Main "HOL-Library.Word"
begin

section \<open>Text\<close>

text \<open>
  A JavaScript string is a sequence of UTF-16 code units; \<open>length\<close>, \<open>slice\<close>,
  \<open>includes\<close> and \<open>+=\<close> all work on code units.  The transcript of
  \<open>PortugolExecutor\<close> holds box-drawing characters and accented letters, so text is a
  list of 16-bit words.  \<open>utf16\<close> embeds an ASCII literal.
\<close>

type_synonym jstring = "16 word list"

definition utf16 :: "string \<Rightarrow> jstring" where
  "utf16 s = map of_char s"

text \<open>\<open>s.slice(0, -1)\<close>: everything but the last code unit; the empty string stays empty.\<close>

definition slice0m1 :: "jstring \<Rightarrow> jstring" where
  "slice0m1 s = take (length s - 1) s"

fun starts_with :: "jstring \<Rightarrow> jstring \<Rightarrow> bool" where
  "starts_with s [] = True"
| "starts_with [] (k # ks) = False"
| "starts_with (x # xs) (k # ks) = (x = k \<and> starts_with xs ks)"

text \<open>\<open>s.includes(k)\<close>: \<open>k\<close> occurs in \<open>s\<close> as a contiguous run of code units.\<close>

fun includes_js :: "jstring \<Rightarrow> jstring \<Rightarrow> bool" where
  "includes_js [] k = (k = [])"
| "includes_js (x # xs) k = (starts_with (x # xs) k \<or> includes_js xs k)"

text \<open>The decimal rendering a template literal gives a non-negative integer.\<close>

fun digits :: "nat \<Rightarrow> jstring" where
  "digits n = (if n < 10 then [48 + of_nat n]
               else digits (n div 10) @ [48 + of_nat (n mod 10)])"

declare digits.simps [simp del]

definition show_int :: "int \<Rightarrow> jstring" where
  "show_int i = (if i < 0 then utf16 ''-'' @ digits (nat (- i)) else digits (nat i))"

section \<open>Data model\<close>

text \<open>\<open>PortugolCodeError\<close>: the fields the executor reads.\<close>

record diag =
  message :: jstring
  startLine :: int
  startCol :: int

text \<open>
  The \<open>times\<close> object.  \<open>performance.now()\<close> returns a double; the model reads an
  exact integer tick count, which keeps the order of readings and the sign of differences.
\<close>

record phase_times =
  parse :: int
  check :: int
  transpile :: int

text \<open>The argument of \<open>runTranspiled\<close>.\<close>

record request =
  code :: jstring
  js :: jstring
  errors :: "diag list"
  parseErrors :: "diag list"
  times_b :: phase_times

text \<open>
  \<open>PortugolEvent\<close>, by its \<open>type\<close> tag: \<open>finish\<close> carries \<open>time\<close>, \<open>error\<close> carries
  \<open>error.message\<close>, \<open>parseError\<close> carries \<open>errors\<close>; any other tag is \<open>Other\<close>.
\<close>

datatype event = Finish int | Clear | Error jstring | ParseError "diag list" | Other jstring

text \<open>
  The four callbacks \<open>runTranspiled\<close> subscribes on a runner.  The lifecycle callback
  closes over the \<open>times\<close> of the bundle it was created for.
\<close>

datatype handler = HStdOut | HWaitingForInput | HRunning | HEvents phase_times

text \<open>A subscription is a runner (by the number of its construction) and a callback.\<close>

type_synonym subscription = "nat \<times> handler"

text \<open>
  What a runner pushes to its subscribers.  An error notification of the lifecycle
  stream reaches \<open>console.error\<close> only and is left out.
\<close>

datatype signal = SStdOut jstring | SWaitingForInput bool | SRunning bool | SEvent event

text \<open>
  The object state of \<open>PortugolExecutor\<close>, followed by what leaves it: the values passed
  to \<open>next\<close> of each public subject (oldest first), the calls of \<open>#printTimes\<close>,
  the number of \<open>console.error\<close> calls, and the runner side (the live subscriptions on
  runner streams, the lines pushed into a runner's \<open>stdIn\<close>, the runners destroyed, the
  number of runners constructed), and the number of clock readings taken.
\<close>

record executor =
  runner :: "nat option"
  byteCode :: jstring
  stdInBuffer :: jstring
  stdOut :: jstring
  sub_stdOut :: "subscription option"
  waitingForInput :: bool
  sub_waitingForInput :: "subscription option"
  running :: bool
  sub_running :: "subscription option"
  errorListener :: "diag list"
  stdOut_stream :: "jstring list"
  waitingForInput_stream :: "bool list"
  running_stream :: "bool list"
  events_stream :: "event list"
  printTimes_calls :: "(phase_times \<times> int option) list"
  console_errors :: nat
  wired :: "subscription list"
  runner_stdIn :: "(nat \<times> jstring) list"
  destroyed :: "nat list"
  constructed :: nat
  clock :: nat

text \<open>The field initialisers of the class.\<close>

definition init :: executor where
  "init = \<lparr> runner = None, byteCode = [], stdInBuffer = [], stdOut = [],
      sub_stdOut = None, waitingForInput = False, sub_waitingForInput = None,
      running = False, sub_running = None, errorListener = [],
      stdOut_stream = [], waitingForInput_stream = [], running_stream = [],
      events_stream = [], printTimes_calls = [], console_errors = 0,
      wired = [], runner_stdIn = [], destroyed = [], constructed = 0, clock = 0 \<rparr>"

section \<open>Subjects and subscriptions\<close>

text \<open>
  \<open>subject.next(v)\<close> on a public subject: the value reaches the host's observers; the
  call returns.
\<close>

definition stdOut_next :: "jstring \<Rightarrow> executor \<Rightarrow> executor" where
  "stdOut_next v s = s\<lparr>stdOut_stream := stdOut_stream s @ [v]\<rparr>"

definition waitingForInput_next :: "bool \<Rightarrow> executor \<Rightarrow> executor" where
  "waitingForInput_next v s = s\<lparr>waitingForInput_stream := waitingForInput_stream s @ [v]\<rparr>"

definition running_next :: "bool \<Rightarrow> executor \<Rightarrow> executor" where
  "running_next v s = s\<lparr>running_stream := running_stream s @ [v]\<rparr>"

definition events_next :: "event \<Rightarrow> executor \<Rightarrow> executor" where
  "events_next v s = s\<lparr>events_stream := events_stream s @ [v]\<rparr>"

text \<open>\<open>this._runner?.stdIn.next(line)\<close>: dropped when no runner is held.\<close>

definition runner_stdIn_next :: "jstring \<Rightarrow> executor \<Rightarrow> executor" where
  "runner_stdIn_next line s =
     (case runner s of None \<Rightarrow> s
      | Some r \<Rightarrow> s\<lparr>runner_stdIn := runner_stdIn s @ [(r, line)]\<rparr>)"

text \<open>
  \<open>runner.stream.subscribe(callback)\<close> adds a live subscription and returns its handle;
  \<open>handle?.unsubscribe()\<close> removes it, and does nothing on \<open>undefined\<close> or on a handle
  already released.
\<close>

definition subscribe :: "nat \<Rightarrow> handler \<Rightarrow> executor \<Rightarrow> subscription \<times> executor" where
  "subscribe r h s = ((r, h), s\<lparr>wired := wired s @ [(r, h)]\<rparr>)"

definition unsubscribe :: "subscription option \<Rightarrow> executor \<Rightarrow> executor" where
  "unsubscribe h s =
     (case h of None \<Rightarrow> s | Some sub \<Rightarrow> s\<lparr>wired := remove1 sub (wired s)\<rparr>)"

text \<open>
  \<open>this._runner?.destroy()\<close>.  What the runner does on \<open>destroy\<close> is its own contract;
  the model records the call and takes it to return.  The field \<open>_runner\<close> is not
  cleared.
\<close>

definition destroy_runner :: "executor \<Rightarrow> executor" where
  "destroy_runner s =
     (case runner s of None \<Rightarrow> s | Some r \<Rightarrow> s\<lparr>destroyed := destroyed s @ [r]\<rparr>)"

section \<open>Terminal input: the subscriber of \<open>stdIn\<close> set up by the constructor\<close>

definition stdIn_next :: "jstring \<Rightarrow> executor \<Rightarrow> executor" where
  "stdIn_next data s =
     (let s1 =
        (if data = [0x8] then
           (if length (stdInBuffer s) > 0 then
              s\<lparr>stdInBuffer := slice0m1 (stdInBuffer s), stdOut := slice0m1 (stdOut s)\<rparr>
            else s)
         else if data = [0xD] then
           (let s' = runner_stdIn_next (stdInBuffer s) s
            in s'\<lparr>stdInBuffer := [], stdOut := stdOut s' @ [0xA]\<rparr>)
         else
           s\<lparr>stdInBuffer := stdInBuffer s @ data, stdOut := stdOut s @ data\<rparr>)
      in stdOut_next (stdOut s1) s1)"

section \<open>Reset and stop\<close>

definition reset :: "bool \<Rightarrow> executor \<Rightarrow> executor" where
  "reset clearStdOut s =
     (let s1 = (if clearStdOut then s\<lparr>stdOut := []\<rparr> else s);
          s2 = unsubscribe (sub_stdOut s1) s1;
          s3 = s2\<lparr>waitingForInput := False\<rparr>;
          s4 = unsubscribe (sub_waitingForInput s3) s3;
          s5 = s4\<lparr>running := False\<rparr>;
          s6 = unsubscribe (sub_running s5) s5
      in destroy_runner s6)"

definition stop :: "executor \<Rightarrow> executor" where
  "stop s = reset True s"

section \<open>The fixed texts of the transcript\<close>

text \<open>
  Each text is the source's literal, code unit by code unit: ASCII runs through
  \<open>utf16\<close>, every other code unit by its number (\<open>0x2554\<close>, \<open>0x2550\<close>,
  \<open>0x2557\<close>, \<open>0x2551\<close>, \<open>0x255A\<close>, \<open>0x255D\<close> draw the box, \<open>0x26D4\<close> is the
  no-entry sign, \<open>0x26A0 0xFE0F\<close> the warning sign, the rest are accented letters).
\<close>

definition legacy_keywords :: "jstring list" where
  "legacy_keywords = [utf16 ''fimalgoritmo'', utf16 ''fimenquanto'', utf16 ''fimpara'',
     utf16 ''fimse'', utf16 ''fimfuncao'']"

definition banner :: jstring where
  "banner =
     [0xA]
     @ ([0x2554] @ replicate 37 0x2550 @ [0x2557, 0xA])
     @ ([0x2551] @ replicate 15 0x20 @ utf16 ''ATEN'' @ [0xC7, 0xC3] @ utf16 ''O''
          @ replicate 15 0x20 @ [0x2551, 0xA])
     @ ([0x2551] @ replicate 37 0x20 @ [0x2551, 0xA])
     @ ([0x2551] @ utf16 '' Foi detectado que o seu c'' @ [0xF3] @ utf16 ''digo est''
          @ [0xE1] @ utf16 '' '' @ [0x2551, 0xA])
     @ ([0x2551] @ utf16 '' usando o Portugol no formato Algol. '' @ [0x2551, 0xA])
     @ ([0x2551] @ utf16 '' O Portugol Webstudio d'' @ [0xE1] @ utf16 '' suporte ao  ''
          @ [0x2551, 0xA])
     @ ([0x2551] @ utf16 '' Portugol no formato definido pela   '' @ [0x2551, 0xA])
     @ ([0x2551] @ utf16 '' UNIVALI. Por favor, leia mais sobre '' @ [0x2551, 0xA])
     @ ([0x2551] @ utf16 '' na se'' @ [0xE7, 0xE3] @ utf16 ''o Ajuda.'' @ replicate 21 0x20
          @ [0x2551, 0xA])
     @ ([0x255A] @ replicate 37 0x2550 @ [0x255D, 0xA, 0xA])"

text \<open>The count line: \<open>erro\<close> for one diagnostic or none, \<open>erros\<close> above one.\<close>

definition count_line :: "nat \<Rightarrow> jstring" where
  "count_line n =
     [0x26D4] @ utf16 '' O seu c'' @ [0xF3] @ utf16 ''digo possui '' @ digits n
     @ utf16 '' erro'' @ (if n > 1 then utf16 ''s'' else [])
     @ utf16 '' de compila'' @ [0xE7, 0xE3] @ utf16 ''o:'' @ [0xA]"

definition error_line :: "diag \<Rightarrow> jstring" where
  "error_line error =
     utf16 ''   - '' @ message error @ utf16 '' (linha '' @ show_int (startLine error)
     @ utf16 '', posi'' @ [0xE7, 0xE3] @ utf16 ''o '' @ show_int (startCol error)
     @ utf16 '')'' @ [0xA]"

definition experimental_notice :: jstring where
  "experimental_notice =
     [0xA, 0x26A0, 0xFE0F] @ utf16 '' Durante essa fase experimental, o c'' @ [0xF3]
     @ utf16 ''digo ainda ser'' @ [0xE1] @ utf16 '' executado mesmo com erros, por''
     @ [0xE9] @ utf16 ''m se n'' @ [0xE3] @ utf16 ''o corrigi-los, a execu'' @ [0xE7, 0xE3]
     @ utf16 ''o abaixo pode exibir mensagens de erro em ingl'' @ [0xEA]
     @ utf16 ''s ou sem explica'' @ [0xE7, 0xE3] @ utf16 ''o.'' @ [0xA]"

definition issue_notice :: jstring where
  "issue_notice =
     utf16 ''   Caso acredite que o erro n'' @ [0xE3] @ utf16 ''o fa'' @ [0xE7]
     @ utf16 ''a sentido, por favor, abra uma issue em ''
     @ utf16 ''https://github.com/dgadelha/Portugol-Webstudio/issues/new/choose''
     @ utf16 '' e anexe o c'' @ [0xF3] @ utf16 ''digo que voc'' @ [0xEA] @ utf16 '' est''
     @ [0xE1] @ utf16 '' tentando executar.'' @ [0xA, 0xA]"

definition start_marker :: jstring where
  "start_marker = utf16 ''- O seu programa ir'' @ [0xE1] @ utf16 '' iniciar abaixo -'' @ [0xA]"

definition finish_line :: "int \<Rightarrow> jstring" where
  "finish_line time =
     [0xA] @ utf16 ''Programa finalizado. Tempo de execu'' @ [0xE7, 0xE3] @ utf16 ''o: ''
     @ show_int time @ utf16 '' milissegundos'' @ [0xA]"

definition runtime_error_line :: "jstring \<Rightarrow> jstring" where
  "runtime_error_line msg = [0xA, 0x26D4] @ utf16 '' '' @ msg @ [0xA]"

definition failure_line :: jstring where
  "failure_line =
     [0xA, 0x26D4] @ utf16 '' O seu c'' @ [0xF3] @ utf16 ''digo possui um erro de compila''
     @ [0xE7, 0xE3] @ utf16 ''o!'' @ [0xA]"

section \<open>The launcher: \<open>runTranspiled\<close>\<close>

text \<open>
  \<open>new this.runner(js)\<close> is the host's runner class.  The constructor may raise
  (\<open>CtorRaises\<close>); the source also tests the result for falsity (\<open>NoHandle\<close>);
  \<open>Handle bc raises\<close> is a handle whose \<open>byteCode\<close> is \<open>bc\<close> and whose \<open>run()\<close>
  raises before it returns the lifecycle stream when the flag is set.
\<close>

datatype construct_result = CtorRaises | NoHandle | Handle jstring bool

text \<open>The runner class: the result of the \<open>k\<close>-th construction, from the generated code.\<close>

type_synonym runner_class = "nat \<Rightarrow> jstring \<Rightarrow> construct_result"

text \<open>\<open>#printTimes\<close> has an empty body; the model keeps the arguments of each call.\<close>

definition printTimes :: "phase_times \<Rightarrow> int option \<Rightarrow> executor \<Rightarrow> executor" where
  "printTimes t execution s = s\<lparr>printTimes_calls := printTimes_calls s @ [(t, execution)]\<rparr>"

definition console_error :: "executor \<Rightarrow> executor" where
  "console_error s = s\<lparr>console_errors := Suc (console_errors s)\<rparr>"

definition stdOut_append :: "jstring \<Rightarrow> executor \<Rightarrow> executor" where
  "stdOut_append t s = s\<lparr>stdOut := stdOut s @ t\<rparr>"

text \<open>The test of \<open>argueAboutAlgolIfNeeded\<close>: some keyword of the list occurs in the code.\<close>

definition legacy_keyword_present :: "jstring \<Rightarrow> bool" where
  "legacy_keyword_present src = list_ex (\<lambda>keyword. includes_js src keyword) legacy_keywords"

definition argueAboutAlgolIfNeeded :: "jstring \<Rightarrow> executor \<Rightarrow> executor" where
  "argueAboutAlgolIfNeeded src s =
     (if legacy_keyword_present src then stdOut_append banner s else s)"

text \<open>The body of \<open>if (errors.length > 0)\<close>.\<close>

definition report_errors :: "request \<Rightarrow> executor \<Rightarrow> executor" where
  "report_errors b s =
     (let s1 = argueAboutAlgolIfNeeded (code b) s;
          s2 = stdOut_append (count_line (length (errors b))) s1;
          s3 = stdOut_append (concat (map error_line (errors b))) s2;
          s4 = stdOut_append experimental_notice s3;
          s5 = stdOut_append issue_notice s4;
          s6 = argueAboutAlgolIfNeeded (code b) s5;
          s7 = stdOut_append start_marker s6
      in stdOut_next (stdOut s7) s7)"

text \<open>
  The \<open>try\<close> block: \<open>Inl\<close> is the state in which an exception left it, \<open>Inr\<close> the state
  at its end.  The handles \<open>subscribe\<close> returns are dropped, as in the source.
\<close>

definition launch_try :: "runner_class \<Rightarrow> request \<Rightarrow> executor \<Rightarrow> executor + executor" where
  "launch_try cls b s =
     (let s1 = reset True s in
      if length (parseErrors b) > 0 then Inl s1
      else
        let s2 = (if length (errors b) > 0 then report_errors b s1 else s1) in
        case cls (constructed s2) (js b) of
          CtorRaises \<Rightarrow> Inl s2
        | NoHandle \<Rightarrow> Inl (s2\<lparr>runner := None\<rparr>)
        | Handle bc run_raises \<Rightarrow>
            let r = constructed s2;
                s3 = s2\<lparr>runner := Some r, constructed := Suc r\<rparr>;
                s4 = s3\<lparr>byteCode := bc\<rparr>;
                s5 = snd (subscribe r HStdOut s4);
                s6 = snd (subscribe r HWaitingForInput s5);
                s7 = snd (subscribe r HRunning s6)
            in if run_raises then Inl s7
               else Inr (snd (subscribe r (HEvents (times_b b)) s7)))"

text \<open>The \<open>catch\<close> block.\<close>

definition launch_catch :: "request \<Rightarrow> executor \<Rightarrow> executor" where
  "launch_catch b s =
     (let s1 = console_error s;
          s2 = stdOut_append failure_line s1;
          s3 = stdOut_next (stdOut s2) s2;
          s4 = printTimes (times_b b) None s3;
          s5 = reset False s4
      in events_next (ParseError (parseErrors b)) s5)"

definition runTranspiled :: "runner_class \<Rightarrow> request \<Rightarrow> executor \<Rightarrow> executor" where
  "runTranspiled cls b s =
     (case launch_try cls b s of Inr s' \<Rightarrow> s' | Inl s' \<Rightarrow> launch_catch b s')"

section \<open>What a runner pushes, and the callbacks it reaches\<close>

text \<open>The \<open>next\<close> callback of the lifecycle subscription.\<close>

definition on_event :: "phase_times \<Rightarrow> event \<Rightarrow> executor \<Rightarrow> executor" where
  "on_event t ev s =
     (let s1 =
        (case ev of
           Finish time \<Rightarrow>
             (let s' = printTimes t (Some time) (stdOut_append (finish_line time) s)
              in stdOut_next (stdOut s') s')
         | Clear \<Rightarrow> (let s' = s\<lparr>stdOut := []\<rparr> in stdOut_next (stdOut s') s')
         | Error msg \<Rightarrow>
             (let s' = stdOut_append (runtime_error_line msg) s
              in stdOut_next (stdOut s') s')
         | _ \<Rightarrow> s)
      in events_next ev s1)"

text \<open>A callback runs on the values of the stream it was subscribed to, and on no other.\<close>

fun handle :: "handler \<Rightarrow> signal \<Rightarrow> executor \<Rightarrow> executor" where
  "handle HStdOut (SStdOut data) s = stdOut_next data (stdOut_append data s)"
| "handle HWaitingForInput (SWaitingForInput data) s =
     waitingForInput_next data (s\<lparr>waitingForInput := data\<rparr>)"
| "handle HRunning (SRunning data) s = running_next data (s\<lparr>running := data\<rparr>)"
| "handle (HEvents t) (SEvent ev) s = on_event t ev s"
| "handle _ _ s = s"

text \<open>
  Runner \<open>r\<close> pushes a value: every live subscription on \<open>r\<close> runs its callback, in
  the order of subscription.
\<close>

definition deliver :: "nat \<Rightarrow> signal \<Rightarrow> executor \<Rightarrow> executor" where
  "deliver r sig s =
     fold (\<lambda>sub s'. if fst sub = r then handle (snd sub) sig s' else s') (wired s) s"

section \<open>The pipeline: \<open>run\<close>\<close>

text \<open>
  The collaborators.  \<open>arquivo\<close> reports syntax diagnostics to the error listener and
  returns the tree, or raises (\<open>None\<close>); \<open>checkTree\<close> and \<open>visit\<close> return their result or
  raise; \<open>now k\<close> is the \<open>k\<close>-th reading of \<open>performance.now()\<close>.  Building the
  character stream, the lexer, the token stream and the parser, and swapping the error
  listeners, are taken to return.
\<close>

record 't toolchain =
  arquivo :: "jstring \<Rightarrow> diag list \<times> 't option"
  checkTree :: "'t \<Rightarrow> diag list option"
  visit :: "'t \<Rightarrow> jstring option"
  now :: "nat \<Rightarrow> int"

text \<open>The local variables of \<open>run\<close>, with their initial values.\<close>

record locals =
  errors_l :: "diag list"
  js_l :: jstring
  parseStart :: int
  parseEnd :: int
  checkStart :: int
  checkEnd :: int
  transpileStart :: int
  transpileEnd :: int

definition locals0 :: locals where
  "locals0 = \<lparr> errors_l = [], js_l = [], parseStart = 0, parseEnd = 0, checkStart = 0,
      checkEnd = 0, transpileStart = 0, transpileEnd = 0 \<rparr>"

definition performance_now :: "'t toolchain \<Rightarrow> executor \<Rightarrow> int \<times> executor" where
  "performance_now tc s = (now tc (clock s), s\<lparr>clock := Suc (clock s)\<rparr>)"

text \<open>
  The \<open>try\<close> block of \<open>run\<close>, whose \<open>catch\<close> is empty: the result is the locals and the
  state where the block ended, at its last statement or at the call that raised.
\<close>

definition run_try :: "'t toolchain \<Rightarrow> jstring \<Rightarrow> executor \<Rightarrow> locals \<times> executor" where
  "run_try tc src s =
     (let (t0, s1) = performance_now tc s;
          l1 = locals0\<lparr>parseStart := t0\<rparr>;
          s2 = s1\<lparr>errorListener := []\<rparr>;
          (reported, tree) = arquivo tc src;
          s3 = s2\<lparr>errorListener := errorListener s2 @ reported\<rparr>
      in case tree of
           None \<Rightarrow> (l1, s3)
         | Some tr \<Rightarrow>
             (let (t1, s4) = performance_now tc s3;
                  l2 = l1\<lparr>parseEnd := t1\<rparr>;
                  (t2, s5) = performance_now tc s4;
                  l3 = l2\<lparr>checkStart := t2\<rparr>
              in case checkTree tc tr of
                   None \<Rightarrow> (l3, s5)
                 | Some errs \<Rightarrow>
                     (let l4 = l3\<lparr>errors_l := errs\<rparr>;
                          (t3, s6) = performance_now tc s5;
                          l5 = l4\<lparr>checkEnd := t3\<rparr>;
                          (t4, s7) = performance_now tc s6;
                          l6 = l5\<lparr>transpileStart := t4\<rparr>
                      in case visit tc tr of
                           None \<Rightarrow> (l6, s7)
                         | Some out \<Rightarrow>
                             (let l7 = l6\<lparr>js_l := out\<rparr>;
                                  (t5, s8) = performance_now tc s7;
                                  l8 = l7\<lparr>transpileEnd := t5\<rparr>
                              in (l8, s8)))))"

text \<open>The object literal handed to \<open>runTranspiled\<close>.\<close>

definition build_request :: "jstring \<Rightarrow> locals \<Rightarrow> executor \<Rightarrow> request" where
  "build_request src l s =
     \<lparr> code = src, js = js_l l, errors = errors_l l, parseErrors = errorListener s,
       times_b = \<lparr> parse = parseEnd l - parseStart l, check = checkEnd l - checkStart l,
                   transpile = transpileEnd l - transpileStart l \<rparr> \<rparr>"

definition run :: "'t toolchain \<Rightarrow> runner_class \<Rightarrow> jstring \<Rightarrow> executor \<Rightarrow> executor" where
  "run tc cls src s =
     (let (l, s') = run_try tc src s
      in runTranspiled cls (build_request src l s') s')"

section \<open>Notions used to state the properties\<close>

text \<open>The number of positions of a text at which a pattern occurs.\<close>

fun occurrences :: "jstring \<Rightarrow> jstring \<Rightarrow> nat" where
  "occurrences pat [] = (if pat = [] then 1 else 0)"
| "occurrences pat (x # xs) = (if starts_with (x # xs) pat then 1 else 0) + occurrences pat xs"



text \<open>The number of clock readings one \<open>run\<close> takes.\<close>

definition readings :: "'t toolchain \<Rightarrow> jstring \<Rightarrow> nat" where
  "readings tc src =
     (case snd (arquivo tc src) of None \<Rightarrow> 1
      | Some tr \<Rightarrow>
          (case checkTree tc tr of None \<Rightarrow> 3
           | Some errs \<Rightarrow> (case visit tc tr of None \<Rightarrow> 5 | Some out \<Rightarrow> 6)))"

subsection \<open>Concrete collaborators and inputs\<close>

text \<open>A toolchain whose three phases return, with no diagnostic; the clock starts at 5.\<close>

definition quiet_toolchain :: "unit toolchain" where
  "quiet_toolchain =
     \<lparr> arquivo = (\<lambda>src. ([], Some ())), checkTree = (\<lambda>tr. Some []),
       visit = (\<lambda>tr. Some (utf16 ''js'')), now = (\<lambda>k. 5 + int k) \<rparr>"

text \<open>A toolchain whose parser reports one syntax diagnostic and raises.\<close>

definition syntax_diag :: diag where
  "syntax_diag = \<lparr> message = utf16 ''mismatched input'', startLine = 1, startCol = 0 \<rparr>"

definition raising_toolchain :: "unit toolchain" where
  "raising_toolchain =
     \<lparr> arquivo = (\<lambda>src. ([syntax_diag], None)), checkTree = (\<lambda>tr. Some []),
       visit = (\<lambda>tr. Some (utf16 ''js'')), now = (\<lambda>k. 5 + int k) \<rparr>"

text \<open>A runner class whose constructor and \<open>run()\<close> return.\<close>

definition plain_class :: runner_class where
  "plain_class = (\<lambda>k generated. Handle (utf16 ''bc'') False)"

definition unit_times :: phase_times where
  "unit_times = \<lparr> parse = 1, check = 1, transpile = 1 \<rparr>"

text \<open>Requests with no diagnostic, with one syntax diagnostic, with one semantic diagnostic.\<close>

definition clean_request :: request where
  "clean_request =
     \<lparr> code = utf16 ''programa'', js = utf16 ''js'', errors = [], parseErrors = [],
       times_b = unit_times \<rparr>"

definition syntax_request :: request where
  "syntax_request =
     \<lparr> code = utf16 ''programa'', js = [], errors = [], parseErrors = [syntax_diag],
       times_b = unit_times \<rparr>"

definition semantic_diag :: diag where
  "semantic_diag = \<lparr> message = utf16 ''tipo'', startLine = 3, startCol = 7 \<rparr>"

definition algol_request :: request where
  "algol_request =
     \<lparr> code = utf16 ''se fimse'', js = utf16 ''js'', errors = [semantic_diag],
       parseErrors = [], times_b = unit_times \<rparr>"

text \<open>
  A state a session reaches: a launch, the keystroke \<open>a\<close>, then a \<open>clear\<close> event of
  the runner.
\<close>

definition cleared_state :: executor where
  "cleared_state =
     deliver 0 (SEvent Clear)
       (stdIn_next (utf16 ''a'') (runTranspiled plain_class clean_request init))"

text \<open>What the diagnostics block appends to the transcript.\<close>

definition diagnostics_text :: "request \<Rightarrow> jstring" where
  "diagnostics_text b =
     (if legacy_keyword_present (code b) then banner else [])
     @ count_line (length (errors b)) @ concat (map error_line (errors b))
     @ experimental_notice @ issue_notice
     @ (if legacy_keyword_present (code b) then banner else [])
     @ start_marker"

definition second_diag :: diag where
  "second_diag = \<lparr> message = utf16 ''nome'', startLine = 4, startCol = 1 \<rparr>"

text \<open>A request with two semantic diagnostics and no legacy keyword in its code.\<close>

definition plural_request :: request where
  "plural_request =
     \<lparr> code = utf16 ''programa'', js = utf16 ''js'', errors = [semantic_diag, second_diag],
       parseErrors = [], times_b = unit_times \<rparr>"


text \<open>A request whose one semantic diagnostic has the banner as its message.\<close>

definition banner_diag :: diag where
  "banner_diag = \<lparr> message = banner, startLine = 1, startCol = 0 \<rparr>"

definition banner_request :: request where
  "banner_request =
     \<lparr> code = utf16 ''programa'', js = utf16 ''js'', errors = [banner_diag],
       parseErrors = [], times_b = unit_times \<rparr>"

text \<open>
  A state a session reaches: a launch, then the runner pushes \<open>true\<close> on its
  running stream and on its pending-input stream.
\<close>

definition busy_state :: executor where
  "busy_state =
     deliver 0 (SWaitingForInput True)
       (deliver 0 (SRunning True) (runTranspiled plain_class clean_request init))"

text \<open>
  No subscription handle is stored: the three fields that \<open>reset\<close> unsubscribes are
  all undefined.
\<close>

definition no_handle :: "executor \<Rightarrow> bool" where
  "no_handle s \<longleftrightarrow>
     sub_stdOut s = None \<and> sub_waitingForInput s = None \<and> sub_running s = None"

section \<open>Lemmas\<close>

subsection \<open>Each operation as one record update\<close>

lemma unsubscribe_upd:
  "unsubscribe h s =
     s\<lparr>wired := (case h of None \<Rightarrow> wired s | Some sub \<Rightarrow> remove1 sub (wired s))\<rparr>"
  by (cases h) (simp_all add: unsubscribe_def)

lemma destroy_runner_upd:
  "destroy_runner s =
     s\<lparr>destroyed := (case runner s of None \<Rightarrow> destroyed s | Some r \<Rightarrow> destroyed s @ [r])\<rparr>"
  by (cases "runner s") (simp_all add: destroy_runner_def)

lemma runner_stdIn_next_upd:
  "runner_stdIn_next line s =
     s\<lparr>runner_stdIn := (case runner s of None \<Rightarrow> runner_stdIn s
                          | Some r \<Rightarrow> runner_stdIn s @ [(r, line)])\<rparr>"
  by (cases "runner s") (simp_all add: runner_stdIn_next_def)

lemmas effect_simps = stdOut_next_def waitingForInput_next_def running_next_def events_next_def
  runner_stdIn_next_upd subscribe_def unsubscribe_upd destroy_runner_upd printTimes_def
  console_error_def stdOut_append_def

lemma reset_fields:
  "stdOut (reset c s) = (if c then [] else stdOut s)"
  "waitingForInput (reset c s) = False"
  "running (reset c s) = False"
  "byteCode (reset c s) = byteCode s"
  "stdInBuffer (reset c s) = stdInBuffer s"
  "runner (reset c s) = runner s"
  "constructed (reset c s) = constructed s"
  "stdOut_stream (reset c s) = stdOut_stream s"
  "waitingForInput_stream (reset c s) = waitingForInput_stream s"
  "running_stream (reset c s) = running_stream s"
  "events_stream (reset c s) = events_stream s"
  "printTimes_calls (reset c s) = printTimes_calls s"
  "errorListener (reset c s) = errorListener s"
  "clock (reset c s) = clock s"
  by (simp_all add: reset_def effect_simps Let_def)

text \<open>The transcript after the diagnostics block.\<close>

lemma argue_stdOut:
  "stdOut (argueAboutAlgolIfNeeded src s) =
     stdOut s @ (if legacy_keyword_present src then banner else [])"
  by (simp add: argueAboutAlgolIfNeeded_def stdOut_append_def)

lemma argue_constructed: "constructed (argueAboutAlgolIfNeeded src s) = constructed s"
  by (simp add: argueAboutAlgolIfNeeded_def stdOut_append_def)

lemma report_errors_fields:
  "stdOut (report_errors b s) =
     stdOut s @ (if legacy_keyword_present (code b) then banner else [])
     @ count_line (length (errors b)) @ concat (map error_line (errors b))
     @ experimental_notice @ issue_notice
     @ (if legacy_keyword_present (code b) then banner else [])
     @ start_marker"
  "constructed (report_errors b s) = constructed s"
  by (simp_all add: report_errors_def Let_def argue_stdOut argue_constructed stdOut_append_def
        stdOut_next_def)

lemma launch_catch_stdOut: "stdOut (launch_catch b s) = stdOut s @ failure_line"
  by (simp add: launch_catch_def Let_def reset_fields effect_simps)

text \<open>The transcript a launch leaves, whatever the state it starts from.\<close>

lemma launch_try_stdOut:
  "parseErrors b = [] \<Longrightarrow>
   stdOut (case launch_try cls b s of Inl s' \<Rightarrow> s' | Inr s' \<Rightarrow> s') =
     (if errors b \<noteq> [] then diagnostics_text b else [])"
  by (simp add: launch_try_def Let_def reset_fields report_errors_fields effect_simps
        diagnostics_text_def split: construct_result.splits)

lemma runTranspiled_stdOut:
  "stdOut (runTranspiled cls b s) =
     (if parseErrors b \<noteq> [] then failure_line
      else (if errors b \<noteq> [] then diagnostics_text b else [])
           @ (case cls (constructed s) (js b) of Handle bc False \<Rightarrow> [] | _ \<Rightarrow> failure_line))"
  by (simp add: runTranspiled_def launch_try_def Let_def reset_fields report_errors_fields effect_simps launch_catch_stdOut
        diagnostics_text_def split: construct_result.splits)

subsection \<open>Occurrences of a pattern\<close>

lemma starts_with_iff: "starts_with s k \<longleftrightarrow> (\<exists>t. s = k @ t)"
  by (induction s k rule: starts_with.induct) auto

lemma includes_js_iff: "includes_js s k \<longleftrightarrow> (\<exists>p q. s = p @ k @ q)"
proof (induction s)
  case Nil
  then show ?case by auto
next
  case (Cons x xs)
  show ?case
  proof
    assume "includes_js (x # xs) k"
    then consider "starts_with (x # xs) k" | "includes_js xs k" by auto
    then show "\<exists>p q. x # xs = p @ k @ q"
    proof cases
      case 1
      then obtain t where "x # xs = k @ t" by (auto simp: starts_with_iff)
      then have "x # xs = [] @ k @ t" by simp
      then show ?thesis by blast
    next
      case 2
      then obtain p q where "xs = p @ k @ q" using Cons.IH by auto
      then have "x # xs = (x # p) @ k @ q" by simp
      then show ?thesis by blast
    qed
  next
    assume "\<exists>p q. x # xs = p @ k @ q"
    then obtain p q where pq: "x # xs = p @ k @ q" by auto
    show "includes_js (x # xs) k"
    proof (cases p)
      case Nil
      then have "starts_with (x # xs) k"
        unfolding starts_with_iff using pq by auto
      then show ?thesis by simp
    next
      case (Cons y p')
      then have "xs = p' @ k @ q" using pq by simp
      then show ?thesis using Cons.IH by auto
    qed
  qed
qed

lemma occurrences_absent:
  assumes "c \<in> set pat" and "c \<notin> set s"
  shows "occurrences pat s = 0"
  using assms
proof (induction s)
  case Nil
  then show ?case by auto
next
  case (Cons x xs)
  have "\<not> starts_with (x # xs) pat"
  proof
    assume "starts_with (x # xs) pat"
    then obtain t where "x # xs = pat @ t" by (auto simp: starts_with_iff)
    then have "set pat \<subseteq> set (x # xs)" by (metis set_append Un_upper1)
    with Cons.prems show False by auto
  qed
  with Cons show ?case by simp
qed

lemma occurrences_skip_last:
  assumes "c \<notin> set xs" and "c \<noteq> p0"
    and "xs = [] \<or> last xs \<noteq> p0 \<or> ys = [] \<or> hd ys \<noteq> c"
  shows "occurrences (p0 # c # r) (xs @ ys) = occurrences (p0 # c # r) ys"
  using assms
proof (induction xs)
  case Nil
  then show ?case by simp
next
  case (Cons x xs)
  have "\<not> starts_with (x # xs @ ys) (p0 # c # r)"
    using Cons.prems by (cases xs; cases ys) auto
  moreover have "xs = [] \<or> last xs \<noteq> p0 \<or> ys = [] \<or> hd ys \<noteq> c"
    using Cons.prems(3) by (cases xs) auto
  ultimately show ?case using Cons by simp
qed

lemma occurrences_inside:
  assumes "\<not> includes_js m pat"
    and "\<forall>v w. pat = v @ w \<and> w \<noteq> [] \<longrightarrow> \<not> starts_with rest w"
  shows "occurrences pat (m @ rest) = occurrences pat rest"
  using assms(1)
proof (induction m)
  case Nil
  then show ?case by simp
next
  case (Cons x m)
  have "\<not> starts_with (x # m @ rest) pat"
  proof
    assume "starts_with (x # m @ rest) pat"
    then obtain t where "(x # m) @ rest = pat @ t"
      by (auto simp: starts_with_iff)
    then obtain us where
      "(x # m = pat @ us \<and> us @ rest = t) \<or> ((x # m) @ us = pat \<and> rest = us @ t)"
      unfolding append_eq_append_conv2 by blast
    then show False
    proof
      assume "x # m = pat @ us \<and> us @ rest = t"
      then have "x # m = [] @ pat @ us" by simp
      then have "includes_js (x # m) pat"
        unfolding includes_js_iff by blast
      with Cons.prems show False by simp
    next
      assume a: "(x # m) @ us = pat \<and> rest = us @ t"
      show False
      proof (cases "us = []")
        case True
        with a have "x # m = [] @ pat @ []" by simp
        then have "includes_js (x # m) pat"
          unfolding includes_js_iff by blast
        with Cons.prems show False by simp
      next
        case False
        from a have "starts_with rest us"
          unfolding starts_with_iff by blast
        moreover from a have "pat = (x # m) @ us" by simp
        ultimately show False using assms(2) False by blast
      qed
    qed
  qed
  moreover have "\<not> includes_js m pat"
    using Cons.prems by simp
  ultimately show ?case using Cons.IH by simp
qed

lemma occurrences_self:
  assumes "c \<noteq> p0" and "c \<notin> set r"
  shows "occurrences (p0 # c # r) ((p0 # c # r) @ t) = 1 + occurrences (p0 # c # r) (r @ t)"
proof -
  have "starts_with ((p0 # c # r) @ t) (p0 # c # r)"
    unfolding starts_with_iff by blast
  then have "occurrences (p0 # c # r) ((p0 # c # r) @ t) = 1 + occurrences (p0 # c # r) (c # r @ t)"
    by simp
  also have "occurrences (p0 # c # r) (c # r @ t) = occurrences (p0 # c # r) (r @ t)"
    using assms by simp
  finally show ?thesis .
qed

text \<open>The corner of the box, \<open>0x2554\<close>, occurs once in the banner and in no other fixed text.\<close>

lemma digits_set: "set (digits n) \<subseteq> set (utf16 ''0123456789'')"
proof (induction n rule: digits.induct)
  case (1 n)
  have d: "(48 + of_nat k :: 16 word) \<in> set (utf16 ''0123456789'')" if "k < 10" for k
  proof -
    from that have "k \<in> {0, 1, 2, 3, 4, 5, 6, 7, 8, 9}" by auto
    then show ?thesis by (auto simp: utf16_def)
  qed
  show ?case
  proof (cases "n < 10")
    case True
    then show ?thesis using d [of n] by (subst digits.simps) simp
  next
    case False
    have "n mod 10 < 10" by simp
    then show ?thesis using False 1 d [of "n mod 10"] by (subst digits.simps) simp
  qed
qed

lemma corner_digits: "0x2554 \<notin> set (digits n)"
proof
  assume "0x2554 \<in> set (digits n)"
  with digits_set have "(0x2554 :: 16 word) \<in> set (utf16 ''0123456789'')" by blast
  then show False by (simp add: utf16_def)
qed

lemma corner_show_int: "0x2554 \<notin> set (show_int i)"
  by (simp add: show_int_def corner_digits utf16_def)

lemma corner_count_line: "0x2554 \<notin> set (count_line n)"
  by (simp add: count_line_def corner_digits utf16_def)

lemma corner_fixed:
  "0x2554 \<notin> set experimental_notice" "0x2554 \<notin> set issue_notice"
  "0x2554 \<notin> set start_marker" "0x2554 \<notin> set failure_line"
  by (simp_all add: experimental_notice_def issue_notice_def start_marker_def failure_line_def
        utf16_def)

lemma banner_shape: "banner = 0xA # 0x2554 # drop 2 banner"
  by (simp add: banner_def)

lemma corner_banner_rest: "0x2554 \<notin> set (drop 2 banner)"
  by (simp add: banner_def utf16_def)

subsection \<open>The diagnostics block\<close>

lemma banner_parts:
  obtains r where "banner = 0xA # 0x2554 # r" and "0x2554 \<notin> set r"
  using banner_shape corner_banner_rest by blast

lemma banner_last: "last banner = 0xA"
  by (simp add: banner_def)

lemma banner_no_paren: "0x28 \<notin> set banner"
  by (simp add: banner_def utf16_def)

lemma banner_suffix_safe:
  assumes "banner = v @ w" and "w \<noteq> []"
  shows "\<not> starts_with (0x20 # 0x28 # rest) w"
proof
  assume "starts_with (0x20 # 0x28 # rest) w"
  then obtain t where t: "0x20 # 0x28 # rest = w @ t"
    by (auto simp: starts_with_iff)
  from assms(2) obtain a w' where w: "w = a # w'" by (cases w) auto
  with t have a: "a = 0x20" by simp
  show False
  proof (cases w')
    case Nil
    with w a assms(1) have "banner = v @ [0x20]" by simp
    then have "last banner = last (v @ [0x20])" by (rule arg_cong)
    then show False by (simp add: banner_last)
  next
    case (Cons a' w'')
    with w t have "a' = 0x28" by simp
    with Cons w assms(1) have "banner = v @ a # 0x28 # w''" by simp
    then have "set banner = set (v @ a # 0x28 # w'')" by (rule arg_cong)
    then have "0x28 \<in> set banner" by simp
    then show False by (simp add: banner_no_paren)
  qed
qed

lemma banner_skip:
  assumes "0x2554 \<notin> set xs"
    and "xs = [] \<or> last xs \<noteq> 0xA \<or> ys = [] \<or> hd ys \<noteq> 0x2554"
  shows "occurrences banner (xs @ ys) = occurrences banner ys"
proof -
  obtain r where r: "banner = 0xA # 0x2554 # r" by (rule banner_parts)
  have "occurrences (0xA # 0x2554 # r) (xs @ ys) = occurrences (0xA # 0x2554 # r) ys"
    using assms by (intro occurrences_skip_last) simp_all
  then show ?thesis unfolding r .
qed

lemma banner_self: "occurrences banner (banner @ t) = 1 + occurrences banner (drop 2 banner @ t)"
proof -
  obtain r where r: "banner = 0xA # 0x2554 # r" "0x2554 \<notin> set r" by (rule banner_parts)
  have "occurrences (0xA # 0x2554 # r) ((0xA # 0x2554 # r) @ t) =
          1 + occurrences (0xA # 0x2554 # r) (r @ t)"
    using r(2) by (intro occurrences_self) simp_all
  then show ?thesis unfolding r(1) [symmetric] by (simp add: r(1))
qed


lemma error_line_shape:
  "error_line e = utf16 ''   - '' @ message e @ (0x20 # 0x28 # drop 2 (utf16 '' (linha'')
     @ utf16 '' '' @ show_int (startLine e) @ utf16 '', posi'' @ [0xE7, 0xE3] @ utf16 ''o ''
     @ show_int (startCol e) @ utf16 '')'' @ [0xA])"
  by (simp add: error_line_def utf16_def)

lemma listing_head:
  assumes "rest \<noteq> []" and "hd rest \<noteq> 0x2554"
  shows "concat (map error_line es) @ rest \<noteq> []"
    and "hd (concat (map error_line es) @ rest) \<noteq> 0x2554"
  using assms by (cases es; simp add: error_line_def utf16_def)+

lemma occurrences_listing:
  assumes "\<forall>e \<in> set es. \<not> includes_js (message e) banner"
    and "rest \<noteq> []" and "hd rest \<noteq> 0x2554"
  shows "occurrences banner (concat (map error_line es) @ rest) = occurrences banner rest"
  using assms(1)
proof (induction es)
  case Nil
  then show ?case by simp
next
  case (Cons e es)
  let ?R = "concat (map error_line es) @ rest"
  let ?S = "drop 2 (utf16 '' (linha'') @ utf16 '' '' @ show_int (startLine e)
     @ utf16 '', posi'' @ [0xE7, 0xE3] @ utf16 ''o '' @ show_int (startCol e)
     @ utf16 '')'' @ [0xA]"
  have R: "?R \<noteq> []" "hd ?R \<noteq> 0x2554"
    using assms(2,3) by (rule listing_head)+
  have S: "0x2554 \<notin> set (0x20 # 0x28 # ?S)"
    by (simp add: corner_show_int utf16_def)
  have "occurrences banner (concat (map error_line (e # es)) @ rest) =
          occurrences banner (utf16 ''   - '' @ (message e @ (0x20 # 0x28 # ?S @ ?R)))"
    by (simp add: error_line_shape)
  also have "\<dots> = occurrences banner (message e @ (0x20 # 0x28 # ?S @ ?R))"
    by (rule banner_skip) (simp_all add: utf16_def)
  also have "\<dots> = occurrences banner (0x20 # 0x28 # ?S @ ?R)"
    using Cons.prems by (intro occurrences_inside) (auto dest: banner_suffix_safe)
  also have "\<dots> = occurrences banner ((0x20 # 0x28 # ?S) @ ?R)"
    by simp
  also have "\<dots> = occurrences banner ?R"
    using S R by (intro banner_skip) simp_all
  also have "\<dots> = occurrences banner rest"
    using Cons by simp
  finally show ?case .
qed

lemma corner_in_banner: "0x2554 \<in> set banner"
  by (simp add: banner_def)

lemma banner_head: "hd (banner @ t) = 0xA"
  by (simp add: banner_def)

lemma occurrences_diagnostics:
  assumes "\<forall>e \<in> set (errors b). \<not> includes_js (message e) banner"
    and "0x2554 \<notin> set tail"
  shows "occurrences banner (diagnostics_text b @ tail) =
           (if legacy_keyword_present (code b) then 2 else 0)"
proof -
  let ?C = "count_line (length (errors b))"
  let ?L = "concat (map error_line (errors b))"
  let ?N = "experimental_notice @ issue_notice"
  let ?M = "start_marker @ tail"
  have M: "0x2554 \<notin> set ?M"
    using assms(2) by (simp add: corner_fixed)
  have N: "0x2554 \<notin> set ?N"
    by (simp add: corner_fixed)
  have Nhd: "?N @ Z \<noteq> []" "hd (?N @ Z) \<noteq> 0x2554" for Z
    by (simp_all add: experimental_notice_def)
  have tail0: "occurrences banner (?N @ ?M) = 0"
    using M N by (intro occurrences_absent [of "0x2554"]) (simp_all add: corner_in_banner)
  have list: "occurrences banner (?L @ ?N @ Z) = occurrences banner (?N @ Z)" for Z
    using assms(1) Nhd by (rule occurrences_listing)
  have Lhd: "hd (?L @ ?N @ Z) \<noteq> 0x2554" for Z
    using Nhd by (rule listing_head)
  show ?thesis
  proof (cases "legacy_keyword_present (code b)")
    case False
    have "occurrences banner (?C @ (?L @ ?N @ ?M)) = occurrences banner (?L @ ?N @ ?M)"
      using Lhd by (intro banner_skip) (simp_all add: corner_count_line)
    also have "\<dots> = occurrences banner (?N @ ?M)"
      using list [of ?M] by simp
    also have "\<dots> = 0"
      by (rule tail0)
    finally show ?thesis
      using False by (simp add: diagnostics_text_def)
  next
    case True
    have "occurrences banner (banner @ ?C @ ?L @ ?N @ banner @ ?M) =
            1 + occurrences banner ((drop 2 banner @ ?C) @ (?L @ ?N @ banner @ ?M))"
      by (simp add: banner_self)
    also have "occurrences banner ((drop 2 banner @ ?C) @ (?L @ ?N @ banner @ ?M)) =
            occurrences banner (?L @ ?N @ banner @ ?M)"
      using Lhd by (intro banner_skip) (simp_all add: corner_count_line corner_banner_rest)
    also have "\<dots> = occurrences banner (?N @ (banner @ ?M))"
      using list [of "banner @ ?M"] by simp
    also have "\<dots> = occurrences banner (banner @ ?M)"
      using N by (intro banner_skip) (simp_all add: banner_head)
    also have "\<dots> = 1 + occurrences banner (drop 2 banner @ ?M)"
      by (rule banner_self)
    also have "occurrences banner (drop 2 banner @ ?M) = 0"
      using M by (intro occurrences_absent [of "0x2554"])
        (simp_all add: corner_in_banner corner_banner_rest)
    finally have "occurrences banner (banner @ ?C @ ?L @ ?N @ banner @ ?M) = 2"
      by simp
    with True show ?thesis
      by (simp add: diagnostics_text_def)
  qed
qed

lemma message_without_corner: "0x2554 \<notin> set m \<Longrightarrow> \<not> includes_js m banner"
proof
  assume a: "0x2554 \<notin> set m" and "includes_js m banner"
  then obtain p q where "m = p @ banner @ q"
    unfolding includes_js_iff by blast
  then have "set m = set (p @ banner @ q)" by (rule arg_cong)
  with a corner_in_banner show False by simp
qed

lemma corner_launch_tail:
  "0x2554 \<notin> set (case r of Handle bc False \<Rightarrow> [] | _ \<Rightarrow> failure_line)"
  by (simp add: corner_fixed split: construct_result.splits)

lemma count_line_one:
  "count_line 1 =
     [0x26D4] @ utf16 '' O seu c'' @ [0xF3] @ utf16 ''digo possui 1 erro de compila''
     @ [0xE7, 0xE3] @ utf16 ''o:'' @ [0xA]"
  by (simp add: count_line_def utf16_def digits.simps)

lemma count_line_many:
  "2 \<le> n \<Longrightarrow>
   count_line n =
     [0x26D4] @ utf16 '' O seu c'' @ [0xF3] @ utf16 ''digo possui '' @ digits n
     @ utf16 '' erros de compila'' @ [0xE7, 0xE3] @ utf16 ''o:'' @ [0xA]"
  by (simp add: count_line_def utf16_def)

subsection \<open>The fatal path and the pipeline\<close>

lemma launch_try_fatal: "parseErrors b \<noteq> [] \<Longrightarrow> launch_try cls b s = Inl (reset True s)"
  by (simp add: launch_try_def Let_def)


lemma run_try_state:
  "snd (run_try tc src s) =
     s\<lparr>errorListener := fst (arquivo tc src), clock := clock s + readings tc src\<rparr>"
  by (simp add: run_try_def performance_now_def readings_def Let_def
        split: prod.splits option.splits)


lemma run_try_locals_frame: "fst (run_try tc src (s\<lparr>stdOut := old\<rparr>)) = fst (run_try tc src s)"
  by (simp add: run_try_def performance_now_def Let_def split: prod.splits option.splits)

lemma run_unfold:
  "run tc cls src s =
     runTranspiled cls (build_request src (fst (run_try tc src s)) (snd (run_try tc src s)))
       (snd (run_try tc src s))"
  by (simp add: run_def split: prod.splits)

subsection \<open>No subscription is ever released\<close>

lemma no_handle_init: "no_handle init"
  by (simp add: no_handle_def init_def)

lemma reset_releases_nothing: "no_handle s \<Longrightarrow> wired (reset c s) = wired s"
  by (simp add: no_handle_def reset_def effect_simps Let_def)

lemma no_handle_reset: "no_handle (reset c s) = no_handle s"
  by (simp add: no_handle_def reset_def effect_simps Let_def)

lemma no_handle_argue: "no_handle (argueAboutAlgolIfNeeded src s) = no_handle s"
  by (simp add: no_handle_def argueAboutAlgolIfNeeded_def stdOut_append_def)

lemma wired_argue: "wired (argueAboutAlgolIfNeeded src s) = wired s"
  by (simp add: argueAboutAlgolIfNeeded_def stdOut_append_def)

lemma report_errors_frame:
  "no_handle (report_errors b s) = no_handle s" "wired (report_errors b s) = wired s"
  by (simp_all add: no_handle_def report_errors_def Let_def argueAboutAlgolIfNeeded_def
        stdOut_append_def stdOut_next_def)

lemma launch_catch_frame:
  "no_handle (launch_catch b s) = no_handle s"
  "no_handle s \<Longrightarrow> wired (launch_catch b s) = wired s"
  by (simp_all add: no_handle_def launch_catch_def Let_def reset_def effect_simps)

lemma launch_try_frame:
  assumes "launch_try cls b s = Inl s' \<or> launch_try cls b s = Inr s'"
  shows "no_handle s' = no_handle s"
    and "no_handle s \<Longrightarrow> \<exists>new. wired s' = wired s @ new"
proof -
  define s2 where "s2 = (if length (errors b) > 0 then report_errors b (reset True s)
                         else reset True s)"
  have s2: "no_handle s2 = no_handle s" "no_handle s \<Longrightarrow> wired s2 = wired s"
    by (simp_all add: s2_def report_errors_frame no_handle_reset reset_releases_nothing)
  have "no_handle s' = no_handle s \<and> (no_handle s \<longrightarrow> (\<exists>new. wired s' = wired s @ new))"
  proof (cases "parseErrors b = []")
    case False
    with assms have "s' = reset True s"
      by (auto simp: launch_try_def Let_def)
    then show ?thesis
      by (simp add: no_handle_reset reset_releases_nothing)
  next
    case True
    show ?thesis
    proof (cases "cls (constructed s2) (js b)")
      case CtorRaises
      with True assms have "s' = s2"
        by (auto simp: launch_try_def Let_def s2_def)
      with s2 show ?thesis by simp
    next
      case NoHandle
      with True assms have "s' = s2\<lparr>runner := None\<rparr>"
        by (auto simp: launch_try_def Let_def s2_def)
      with s2 show ?thesis by (simp add: no_handle_def)
    next
      case (Handle bc run_raises)
      with True assms have
        "\<exists>new. s' = s2\<lparr>runner := Some (constructed s2), constructed := Suc (constructed s2),
                 byteCode := bc, wired := wired s2 @ new\<rparr>"
        by (cases run_raises) (auto simp: launch_try_def Let_def s2_def subscribe_def)
      then obtain new where
        "s' = s2\<lparr>runner := Some (constructed s2), constructed := Suc (constructed s2),
                 byteCode := bc, wired := wired s2 @ new\<rparr>" ..
      with s2 show ?thesis by (simp add: no_handle_def)
    qed
  qed
  then show "no_handle s' = no_handle s"
    and "no_handle s \<Longrightarrow> \<exists>new. wired s' = wired s @ new"
    by simp_all
qed

lemma runTranspiled_frame:
  "no_handle (runTranspiled cls b s) = no_handle s"
  "no_handle s \<Longrightarrow> \<exists>new. wired (runTranspiled cls b s) = wired s @ new"
proof -
  show "no_handle (runTranspiled cls b s) = no_handle s"
  proof (cases "launch_try cls b s")
    case (Inl s')
    then show ?thesis
      using launch_try_frame(1) [of cls b s s']
      by (simp add: runTranspiled_def launch_catch_frame)
  next
    case (Inr s')
    then show ?thesis
      using launch_try_frame(1) [of cls b s s'] by (simp add: runTranspiled_def)
  qed
  show "\<exists>new. wired (runTranspiled cls b s) = wired s @ new" if "no_handle s"
  proof (cases "launch_try cls b s")
    case (Inl s')
    then show ?thesis
      using that launch_try_frame [of cls b s s']
      by (simp add: runTranspiled_def launch_catch_frame)
  next
    case (Inr s')
    then show ?thesis
      using that launch_try_frame(2) [of cls b s s'] by (simp add: runTranspiled_def)
  qed
qed

lemma run_frame:
  "no_handle (run tc cls src s) = no_handle s"
  "no_handle s \<Longrightarrow> \<exists>new. wired (run tc cls src s) = wired s @ new"
proof -
  let ?s = "s\<lparr>errorListener := fst (arquivo tc src), clock := clock s + readings tc src\<rparr>"
  have s: "no_handle ?s = no_handle s" "wired ?s = wired s"
    by (simp_all add: no_handle_def)
  show "no_handle (run tc cls src s) = no_handle s"
    by (simp add: run_unfold run_try_state runTranspiled_frame(1) s del: no_handle_def)
  show "\<exists>new. wired (run tc cls src s) = wired s @ new" if "no_handle s"
    using that s runTranspiled_frame(2) [of ?s cls]
    by (simp add: run_unfold run_try_state)
qed

subsection \<open>Where the whole transcript is emitted, and where the chunk is\<close>

lemma whole_transcript_emitted:
  "stdOut_stream (stdIn_next data s) = stdOut_stream s @ [stdOut (stdIn_next data s)]"
  "stdOut_stream (report_errors b s) = stdOut_stream s @ [stdOut (report_errors b s)]"
  "stdOut_stream (launch_catch b s) = stdOut_stream s @ [stdOut (launch_catch b s)]"
  "stdOut_stream (on_event t (Finish time) s) = stdOut_stream s @ [stdOut (on_event t (Finish time) s)]"
  "stdOut_stream (on_event t Clear s) = stdOut_stream s @ [stdOut (on_event t Clear s)]"
  "stdOut_stream (on_event t (Error msg) s) = stdOut_stream s @ [stdOut (on_event t (Error msg) s)]"
  by (simp_all add: stdIn_next_def report_errors_def launch_catch_def on_event_def Let_def
        argueAboutAlgolIfNeeded_def reset_fields effect_simps)

lemma chunk_emitted:
  "stdOut_stream (handle HStdOut (SStdOut data) s) = stdOut_stream s @ [data]"
  "stdOut (handle HStdOut (SStdOut data) s) = stdOut s @ data"
  by (simp_all add: effect_simps)

subsection \<open>The times of the request\<close>

lemma times_all_return:
  assumes "arquivo tc src = (reported, Some tr)" and "checkTree tc tr = Some errs"
    and "visit tc tr = Some out"
  shows "times_b (build_request src (fst (run_try tc src s)) (snd (run_try tc src s))) =
           \<lparr> parse = now tc (clock s + 1) - now tc (clock s),
             check = now tc (clock s + 3) - now tc (clock s + 2),
             transpile = now tc (clock s + 5) - now tc (clock s + 4) \<rparr>"
  using assms
  by (simp add: run_try_def performance_now_def build_request_def locals0_def Let_def
        eval_nat_numeral)

lemma times_parse_raises:
  assumes "arquivo tc src = (reported, None)"
  shows "times_b (build_request src (fst (run_try tc src s)) (snd (run_try tc src s))) =
           \<lparr> parse = - now tc (clock s), check = 0, transpile = 0 \<rparr>"
  using assms
  by (simp add: run_try_def performance_now_def build_request_def locals0_def Let_def
        eval_nat_numeral)

lemma times_check_raises:
  assumes "arquivo tc src = (reported, Some tr)" and "checkTree tc tr = None"
  shows "times_b (build_request src (fst (run_try tc src s)) (snd (run_try tc src s))) =
           \<lparr> parse = now tc (clock s + 1) - now tc (clock s),
             check = - now tc (clock s + 2), transpile = 0 \<rparr>"
  using assms
  by (simp add: run_try_def performance_now_def build_request_def locals0_def Let_def
        eval_nat_numeral)

lemma times_visit_raises:
  assumes "arquivo tc src = (reported, Some tr)" and "checkTree tc tr = Some errs"
    and "visit tc tr = None"
  shows "times_b (build_request src (fst (run_try tc src s)) (snd (run_try tc src s))) =
           \<lparr> parse = now tc (clock s + 1) - now tc (clock s),
             check = now tc (clock s + 3) - now tc (clock s + 2),
             transpile = - now tc (clock s + 4) \<rparr>"
  using assms
  by (simp add: run_try_def performance_now_def build_request_def locals0_def Let_def
        eval_nat_numeral)

subsection \<open>Evaluation of the concrete inputs\<close>

lemmas eval_defs = run_def run_try_def performance_now_def build_request_def locals0_def
  runTranspiled_def launch_try_def launch_catch_def reset_def effect_simps init_def Let_def
  deliver_def utf16_def stdIn_next_def on_event_def

lemma cleared_state_eval:
  "stdInBuffer cleared_state = utf16 ''a''" "stdOut cleared_state = []"
  "stdOut_stream cleared_state = [utf16 ''a'', []]"
  by (simp_all add: cleared_state_def plain_class_def clean_request_def unit_times_def eval_defs)

lemma syntax_request_eval:
  "parseErrors syntax_request = [syntax_diag]" "times_b syntax_request = unit_times"
  by (simp_all add: syntax_request_def)

lemma init_eval:
  "constructed init = 0" "runner init = None" "stdOut_stream init = []"
  "printTimes_calls init = []" "events_stream init = []"
  by (simp_all add: init_def)

lemma algol_request_eval:
  "parseErrors algol_request = []" "errors algol_request = [semantic_diag]"
  "legacy_keyword_present (code algol_request)"
  by (simp_all add: algol_request_def legacy_keyword_present_def legacy_keywords_def utf16_def)

lemma plural_request_eval:
  "parseErrors plural_request = []" "errors plural_request = [semantic_diag, second_diag]"
  "\<not> legacy_keyword_present (code plural_request)"
  by (simp_all add: plural_request_def legacy_keyword_present_def legacy_keywords_def utf16_def)

lemma banner_request_eval:
  "parseErrors banner_request = []" "errors banner_request = [banner_diag]"
  "\<not> legacy_keyword_present (code banner_request)" "message banner_diag = banner"
  by (simp_all add: banner_request_def banner_diag_def legacy_keyword_present_def
        legacy_keywords_def utf16_def)

lemma diag_messages_eval:
  "0x2554 \<notin> set (message semantic_diag)" "0x2554 \<notin> set (message second_diag)"
  by (simp_all add: semantic_diag_def second_diag_def utf16_def)

section \<open>The claims\<close>

text \<open>
  C1.  Two \<open>run\<close> calls with no \<open>stop\<close> between them, on a fresh executor, with a
  toolchain and a runner class that succeed.  The reset at the start of the second launch
  releases nothing: the fields \<open>_stdOut$\<close>, \<open>_waitingForInput$\<close> and \<open>_running$\<close> it
  unsubscribes are never assigned, and the lifecycle subscription has no field.  The four
  subscriptions of the first runner (number 0) are still live after the second launch,
  and an output chunk the first runner pushes then is appended to the transcript and
  emitted on the public output stream.  A chunk of the second runner is emitted once.
\<close>

theorem first_runner_still_forwarded:
  "wired (run quiet_toolchain plain_class [] (run quiet_toolchain plain_class [] init)) =
     [(0, HStdOut), (0, HWaitingForInput), (0, HRunning), (0, HEvents unit_times),
      (1, HStdOut), (1, HWaitingForInput), (1, HRunning), (1, HEvents unit_times)]
   \<and> stdOut_stream (deliver 0 (SStdOut (utf16 ''old''))
         (run quiet_toolchain plain_class [] (run quiet_toolchain plain_class [] init)))
       = [utf16 ''old'']
   \<and> stdOut (deliver 0 (SStdOut (utf16 ''old''))
         (run quiet_toolchain plain_class [] (run quiet_toolchain plain_class [] init)))
       = utf16 ''old''
   \<and> stdOut_stream (deliver 1 (SStdOut (utf16 ''new''))
         (run quiet_toolchain plain_class [] (run quiet_toolchain plain_class [] init)))
       = [utf16 ''new'']"
  by (simp add: eval_defs quiet_toolchain_def plain_class_def unit_times_def)

text \<open>
  C2.  A launch, the keystroke \<open>a\<close>, then the output chunk \<open>b\<close> of the runner: the
  transcript becomes \<open>ab\<close>, and the value emitted on the public output stream for the
  chunk is \<open>b\<close>, the chunk alone, where the keystroke before it emitted the whole
  transcript.
\<close>

theorem chunk_emitted_alone:
  "stdOut (deliver 0 (SStdOut (utf16 ''b''))
      (stdIn_next (utf16 ''a'') (runTranspiled plain_class clean_request init))) = utf16 ''ab''
   \<and> stdOut_stream (deliver 0 (SStdOut (utf16 ''b''))
      (stdIn_next (utf16 ''a'') (runTranspiled plain_class clean_request init)))
       = [utf16 ''a'', utf16 ''b'']"
  by (simp add: eval_defs plain_class_def clean_request_def)

text \<open>
  C3.  \<open>stop\<close> on the fresh executor, where no runner is held and \<open>destroy\<close> is not
  called: both flags are false afterwards and nothing has been emitted on
  \<open>waitingForInput$\<close> or on \<open>running$\<close>.  \<open>stop\<close> after a launch whose runner has
  pushed \<open>true\<close> on both of its streams, with a runner whose \<open>destroy\<close> pushes
  nothing: both flags are false afterwards, and the last value on each public stream is
  still \<open>true\<close>.  \<open>reset\<close> assigns the flags and calls \<open>next\<close> on neither subject,
  where the forwarding callbacks pair each assignment with its emission.
\<close>

theorem stop_leaves_streams_stale:
  "waitingForInput (stop init) = False \<and> running (stop init) = False
   \<and> waitingForInput_stream (stop init) = [] \<and> running_stream (stop init) = []
   \<and> waitingForInput busy_state = True \<and> running busy_state = True
   \<and> waitingForInput_stream busy_state = [True] \<and> running_stream busy_state = [True]
   \<and> waitingForInput (stop busy_state) = False \<and> running (stop busy_state) = False
   \<and> waitingForInput_stream (stop busy_state) = [True]
   \<and> running_stream (stop busy_state) = [True]"
  by (simp add: stop_def busy_state_def plain_class_def clean_request_def eval_defs)

text \<open>
  C4.  When the syntax diagnostics of the request are not empty, \<open>runTranspiled\<close> is
  the failure path on the state the first reset leaves: no runner is constructed and
  the runner held is the one held before; the failure line is appended to the cleared
  transcript and emitted; \<open>#printTimes\<close> is called with the times of the request and
  no execution time; a reset that keeps the transcript follows; and one \<open>parseError\<close>
  event carrying the syntax diagnostics is emitted on \<open>events\<close>.
\<close>

theorem fatal_syntax_path:
  assumes "parseErrors b \<noteq> []"
  shows "runTranspiled cls b s =
           events_next (ParseError (parseErrors b))
             (reset False
               (printTimes (times_b b) None
                 (stdOut_next failure_line
                   (stdOut_append failure_line (console_error (reset True s))))))
         \<and> constructed (runTranspiled cls b s) = constructed s
         \<and> runner (runTranspiled cls b s) = runner s
         \<and> stdOut (runTranspiled cls b s) = failure_line
         \<and> stdOut_stream (runTranspiled cls b s) = stdOut_stream s @ [failure_line]
         \<and> printTimes_calls (runTranspiled cls b s) = printTimes_calls s @ [(times_b b, None)]
         \<and> events_stream (runTranspiled cls b s) =
             events_stream s @ [ParseError (parseErrors b)]"
proof -
  have eq: "runTranspiled cls b s = launch_catch b (reset True s)"
    using assms by (simp add: runTranspiled_def launch_try_fatal)
  show ?thesis
    unfolding eq
    by (simp add: launch_catch_def Let_def reset_fields effect_simps)
qed

theorem fatal_syntax_path_witness:
  "parseErrors syntax_request \<noteq> []
   \<and> constructed (runTranspiled plain_class syntax_request init) = 0
   \<and> runner (runTranspiled plain_class syntax_request init) = None
   \<and> stdOut (runTranspiled plain_class syntax_request init) = failure_line
   \<and> stdOut_stream (runTranspiled plain_class syntax_request init) = [failure_line]
   \<and> printTimes_calls (runTranspiled plain_class syntax_request init) = [(unit_times, None)]
   \<and> events_stream (runTranspiled plain_class syntax_request init) = [ParseError [syntax_diag]]"
proof -
  have h: "parseErrors syntax_request \<noteq> []"
    by (simp add: syntax_request_eval)
  show ?thesis
    using h fatal_syntax_path [OF h, of plain_class init, THEN conjunct2]
    by (simp add: syntax_request_eval init_eval)
qed

text \<open>
  C5, as amended.  A request with no syntax diagnostic and at least one semantic
  diagnostic.  The transcript a launch leaves is: the banner if the code holds a legacy
  keyword, the count line, one line per diagnostic in order, holding its message, line
  and column, the two notices, the banner again under the same test, the start marker,
  and the failure line if the runner could not be started.  So with a legacy
  keyword the banner is appended twice with the listing once between, and without one it
  is not appended.  When no diagnostic message itself contains the banner, the banner
  occurs in the transcript exactly twice with a legacy keyword and not at all without.
  The count line reads \<open>1 erro\<close> for one diagnostic and \<open>n erros\<close> for two or more.
\<close>

theorem semantic_diagnostics_transcript:
  assumes "parseErrors b = []" and "errors b \<noteq> []"
  shows "stdOut (runTranspiled cls b s) =
           (if legacy_keyword_present (code b) then banner else [])
           @ count_line (length (errors b))
           @ concat (map (\<lambda>e. utf16 ''   - '' @ message e @ utf16 '' (linha ''
                            @ show_int (startLine e) @ utf16 '', posi'' @ [0xE7, 0xE3]
                            @ utf16 ''o '' @ show_int (startCol e) @ utf16 '')'' @ [0xA])
                       (errors b))
           @ experimental_notice @ issue_notice
           @ (if legacy_keyword_present (code b) then banner else [])
           @ start_marker
           @ (case cls (constructed s) (js b) of Handle bc False \<Rightarrow> [] | _ \<Rightarrow> failure_line)
         \<and> ((\<forall>e \<in> set (errors b). \<not> includes_js (message e) banner) \<longrightarrow>
              occurrences banner (stdOut (runTranspiled cls b s)) =
                (if legacy_keyword_present (code b) then 2 else 0))
         \<and> (length (errors b) = 1 \<longrightarrow>
              count_line (length (errors b)) =
                [0x26D4] @ utf16 '' O seu c'' @ [0xF3] @ utf16 ''digo possui 1 erro de compila''
                @ [0xE7, 0xE3] @ utf16 ''o:'' @ [0xA])
         \<and> (2 \<le> length (errors b) \<longrightarrow>
              count_line (length (errors b)) =
                [0x26D4] @ utf16 '' O seu c'' @ [0xF3] @ utf16 ''digo possui ''
                @ digits (length (errors b)) @ utf16 '' erros de compila''
                @ [0xE7, 0xE3] @ utf16 ''o:'' @ [0xA])"
proof -
  let ?tail = "case cls (constructed s) (js b) of Handle bc False \<Rightarrow> [] | _ \<Rightarrow> failure_line"
  have out: "stdOut (runTranspiled cls b s) = diagnostics_text b @ ?tail"
    using assms by (simp add: runTranspiled_stdOut)
  have line: "error_line = (\<lambda>e. utf16 ''   - '' @ message e @ utf16 '' (linha ''
                            @ show_int (startLine e) @ utf16 '', posi'' @ [0xE7, 0xE3]
                            @ utf16 ''o '' @ show_int (startCol e) @ utf16 '')'' @ [0xA])"
    by (rule ext) (simp add: error_line_def)
  have occ: "occurrences banner (stdOut (runTranspiled cls b s)) =
               (if legacy_keyword_present (code b) then 2 else 0)"
    if "\<forall>e \<in> set (errors b). \<not> includes_js (message e) banner"
    unfolding out using that corner_launch_tail by (rule occurrences_diagnostics)
  have shape: "stdOut (runTranspiled cls b s) =
           (if legacy_keyword_present (code b) then banner else [])
           @ count_line (length (errors b))
           @ concat (map (\<lambda>e. utf16 ''   - '' @ message e @ utf16 '' (linha ''
                            @ show_int (startLine e) @ utf16 '', posi'' @ [0xE7, 0xE3]
                            @ utf16 ''o '' @ show_int (startCol e) @ utf16 '')'' @ [0xA])
                       (errors b))
           @ experimental_notice @ issue_notice
           @ (if legacy_keyword_present (code b) then banner else [])
           @ start_marker @ ?tail"
    unfolding out diagnostics_text_def line by simp
  have one: "length (errors b) = 1 \<longrightarrow>
      count_line (length (errors b)) =
        [0x26D4] @ utf16 '' O seu c'' @ [0xF3] @ utf16 ''digo possui 1 erro de compila''
        @ [0xE7, 0xE3] @ utf16 ''o:'' @ [0xA]"
    using count_line_one by simp
  have many: "2 \<le> length (errors b) \<longrightarrow>
      count_line (length (errors b)) =
        [0x26D4] @ utf16 '' O seu c'' @ [0xF3] @ utf16 ''digo possui ''
        @ digits (length (errors b)) @ utf16 '' erros de compila''
        @ [0xE7, 0xE3] @ utf16 ''o:'' @ [0xA]"
    using count_line_many by simp
  from occ have occ': "(\<forall>e \<in> set (errors b). \<not> includes_js (message e) banner) \<longrightarrow>
      occurrences banner (stdOut (runTranspiled cls b s)) =
        (if legacy_keyword_present (code b) then 2 else 0)"
    by (rule impI)
  from shape occ' one many show ?thesis
    by (intro conjI)
qed

theorem semantic_diagnostics_transcript_witness:
  "parseErrors algol_request = [] \<and> errors algol_request \<noteq> []
   \<and> errors algol_request = [semantic_diag]
   \<and> \<not> includes_js (message semantic_diag) banner
   \<and> length (errors algol_request) = 1
   \<and> legacy_keyword_present (code algol_request)
   \<and> occurrences banner (stdOut (runTranspiled plain_class algol_request init)) = 2
   \<and> parseErrors plural_request = [] \<and> errors plural_request \<noteq> []
   \<and> errors plural_request = [semantic_diag, second_diag]
   \<and> \<not> includes_js (message second_diag) banner
   \<and> 2 \<le> length (errors plural_request)
   \<and> \<not> legacy_keyword_present (code plural_request)
   \<and> occurrences banner (stdOut (runTranspiled plain_class plural_request init)) = 0
   \<and> stdOut (runTranspiled plain_class plural_request init) =
        [0x26D4] @ utf16 '' O seu c'' @ [0xF3] @ utf16 ''digo possui 2 erros de compila''
        @ [0xE7, 0xE3] @ utf16 ''o:'' @ [0xA]
        @ utf16 ''   - tipo (linha 3, posi'' @ [0xE7, 0xE3] @ utf16 ''o 7)'' @ [0xA]
        @ utf16 ''   - nome (linha 4, posi'' @ [0xE7, 0xE3] @ utf16 ''o 1)'' @ [0xA]
        @ experimental_notice @ issue_notice @ start_marker"
proof -
  have a: "parseErrors algol_request = []" "errors algol_request \<noteq> []"
    by (simp_all add: algol_request_eval)
  have p: "parseErrors plural_request = []" "errors plural_request \<noteq> []"
    by (simp_all add: plural_request_eval)
  have m: "\<not> includes_js (message semantic_diag) banner"
    "\<not> includes_js (message second_diag) banner"
    by (simp_all add: message_without_corner diag_messages_eval)
  have d: "digits (Suc (Suc 0)) = utf16 ''2''"
    by (simp add: digits.simps utf16_def)
  have n: "show_int 3 = utf16 ''3''" "show_int 7 = utf16 ''7''" "show_int 4 = utf16 ''4''"
    "show_int 1 = utf16 ''1''"
    by (simp_all add: show_int_def digits.simps utf16_def)
  have f: "message semantic_diag = utf16 ''tipo''" "startLine semantic_diag = 3"
    "startCol semantic_diag = 7" "message second_diag = utf16 ''nome''"
    "startLine second_diag = 4" "startCol second_diag = 1"
    by (simp_all add: semantic_diag_def second_diag_def)
  have c: "plain_class k g = Handle (utf16 ''bc'') False" for k g
    by (simp add: plain_class_def)
  note A = semantic_diagnostics_transcript [OF a, of plain_class init]
  note P = semantic_diagnostics_transcript [OF p, of plain_class init]
  have "occurrences banner (stdOut (runTranspiled plain_class algol_request init)) = 2"
    using A [THEN conjunct2, THEN conjunct1] m by (simp add: algol_request_eval)
  moreover have "occurrences banner (stdOut (runTranspiled plain_class plural_request init)) = 0"
    using P [THEN conjunct2, THEN conjunct1] m by (simp add: plural_request_eval)
  moreover have "stdOut (runTranspiled plain_class plural_request init) =
        [0x26D4] @ utf16 '' O seu c'' @ [0xF3] @ utf16 ''digo possui 2 erros de compila''
        @ [0xE7, 0xE3] @ utf16 ''o:'' @ [0xA]
        @ utf16 ''   - tipo (linha 3, posi'' @ [0xE7, 0xE3] @ utf16 ''o 7)'' @ [0xA]
        @ utf16 ''   - nome (linha 4, posi'' @ [0xE7, 0xE3] @ utf16 ''o 1)'' @ [0xA]
        @ experimental_notice @ issue_notice @ start_marker"
    using P [THEN conjunct1] P [THEN conjunct2, THEN conjunct2, THEN conjunct2]
    by (simp add: plural_request_eval d n f c utf16_def)
  ultimately show ?thesis
    using a p m by (simp add: algol_request_eval plural_request_eval)
qed

text \<open>
  C5 as stated fails: with no legacy keyword in the code and one diagnostic whose
  message is the banner, the banner occurs once in the transcript.
\<close>

theorem banner_in_message_counterexample:
  "parseErrors banner_request = [] \<and> errors banner_request \<noteq> []
   \<and> \<not> legacy_keyword_present (code banner_request)
   \<and> occurrences banner (stdOut (runTranspiled plain_class banner_request init)) = 1"
proof -
  let ?P = "count_line 1 @ utf16 ''   - ''"
  let ?S = "utf16 '' (linha '' @ show_int 1 @ utf16 '', posi'' @ [0xE7, 0xE3] @ utf16 ''o ''
     @ show_int 0 @ utf16 '')'' @ [0xA] @ experimental_notice @ issue_notice @ start_marker"
  have out: "stdOut (runTranspiled plain_class banner_request init) = ?P @ banner @ ?S"
    by (simp add: runTranspiled_stdOut diagnostics_text_def banner_request_eval plain_class_def
          error_line_def banner_diag_def)
  have "occurrences banner (?P @ (banner @ ?S)) = occurrences banner (banner @ ?S)"
    by (rule banner_skip) (simp_all add: corner_count_line utf16_def banner_head)
  also have "\<dots> = 1 + occurrences banner (drop 2 banner @ ?S)"
    by (rule banner_self)
  also have "occurrences banner (drop 2 banner @ ?S) = 0"
    by (rule occurrences_absent [of "0x2554"])
      (simp_all add: corner_in_banner corner_banner_rest corner_fixed corner_show_int utf16_def)
  finally show ?thesis
    by (simp add: out banner_request_eval)
qed


text \<open>
  C7.  The parser raises at its first call, with the clock at 5: \<open>parseStart\<close> is 5 and
  \<open>parseEnd\<close> is still 0, so the parse time of the request is \<open>-5\<close>, and
  \<open>#printTimes\<close> receives it on the failure path.
\<close>

theorem raised_phase_negative_timing:
  "parse (times_b (build_request []
      (fst (run_try raising_toolchain [] init)) (snd (run_try raising_toolchain [] init)))) = - 5
   \<and> printTimes_calls (run raising_toolchain plain_class [] init) =
       [(\<lparr>parse = - 5, check = 0, transpile = 0\<rparr>, None)]"
  by (simp add: eval_defs raising_toolchain_def)

text \<open>
  C8.  The first reset of a launch empties the transcript, so the transcript after
  \<open>runTranspiled\<close>, and after \<open>run\<close>, does not depend on the transcript before; with a
  syntax diagnostic it is the failure line and nothing else.
\<close>

theorem launch_discards_old_transcript:
  "stdOut (reset True s) = []
   \<and> stdOut (runTranspiled cls b (s\<lparr>stdOut := old\<rparr>)) = stdOut (runTranspiled cls b s)
   \<and> stdOut (run tc cls src (s\<lparr>stdOut := old\<rparr>)) = stdOut (run tc cls src s)
   \<and> (parseErrors b \<noteq> [] \<longrightarrow> stdOut (runTranspiled cls b s) = failure_line)"
proof -
  have "stdOut (run tc cls src (s\<lparr>stdOut := old\<rparr>)) = stdOut (run tc cls src s)"
    by (simp add: run_unfold runTranspiled_stdOut run_try_state run_try_locals_frame
          build_request_def)
  then show ?thesis
    by (simp add: reset_fields runTranspiled_stdOut)
qed

theorem launch_discards_old_transcript_witness:
  "parseErrors syntax_request \<noteq> []
   \<and> stdOut (runTranspiled plain_class syntax_request (init\<lparr>stdOut := utf16 ''old''\<rparr>))
       = failure_line"
proof -
  have h: "parseErrors syntax_request \<noteq> []"
    by (simp add: syntax_request_eval)
  show ?thesis
    using h launch_discards_old_transcript
      [of "init\<lparr>stdOut := utf16 ''old''\<rparr>" plain_class syntax_request "[]"
        quiet_toolchain "[]"]
    by simp
qed

text \<open>
  C9.  \<open>reset\<close>, with either flag, and \<open>stop\<close> leave \<open>byteCode\<close> and \<open>stdInBuffer\<close> as
  they were; the keystrokes buffered before a \<open>stop\<close> are what the next carriage return
  pushes to the runner still held.
\<close>

theorem reset_keeps_byteCode_and_stdInBuffer:
  "byteCode (reset c s) = byteCode s \<and> stdInBuffer (reset c s) = stdInBuffer s
   \<and> byteCode (stop s) = byteCode s \<and> stdInBuffer (stop s) = stdInBuffer s
   \<and> runner_stdIn (stdIn_next [0xD] (stop s)) =
       runner_stdIn s @ (case runner s of None \<Rightarrow> [] | Some r \<Rightarrow> [(r, stdInBuffer s)])"
proof -
  have "runner_stdIn (stdIn_next [0xD] (stop s)) =
       runner_stdIn s @ (case runner s of None \<Rightarrow> [] | Some r \<Rightarrow> [(r, stdInBuffer s)])"
    by (cases "runner s") (simp_all add: stop_def reset_def stdIn_next_def effect_simps Let_def)
  then show ?thesis
    by (simp add: stop_def reset_fields)
qed

text \<open>
  C10.  A backspace with a non-empty input buffer and an empty transcript: the handler
  returns, the buffer loses its last code unit, the transcript stays empty, and the empty
  transcript is emitted.
\<close>

theorem backspace_on_empty_transcript:
  assumes "stdInBuffer s \<noteq> []" and "stdOut s = []"
  shows "stdInBuffer (stdIn_next [0x8] s) = butlast (stdInBuffer s)
         \<and> stdOut (stdIn_next [0x8] s) = []
         \<and> stdOut_stream (stdIn_next [0x8] s) = stdOut_stream s @ [[]]"
  using assms
  by (simp add: stdIn_next_def slice0m1_def stdOut_next_def Let_def butlast_conv_take)

theorem backspace_on_empty_transcript_witness:
  "stdInBuffer cleared_state \<noteq> [] \<and> stdOut cleared_state = []
   \<and> stdInBuffer (stdIn_next [0x8] cleared_state) = []
   \<and> stdOut (stdIn_next [0x8] cleared_state) = []
   \<and> stdOut_stream (stdIn_next [0x8] cleared_state) = [utf16 ''a'', [], []]"
  using backspace_on_empty_transcript [of cleared_state]
  by (simp add: cleared_state_eval utf16_def)

end
